theory Spec2Isabelle
  imports Complex_Main "HOL-Library.Log_Nat"
begin

section \<open>Python values, errors and text\<close>

text \<open>
  The module \<^verbatim>\<open>utils.py\<close> is Python; the development below embeds the class
  \<^verbatim>\<open>ConfigReader\<close>. A Python \<^verbatim>\<open>str\<close> is modelled as a \<open>string\<close>: a list of
  characters whose code points lie in the range 0 to 255. A parameter value is one of the
  objects the parser can produce; exceptions are values of the type \<open>py_error\<close>, and a
  function that may raise returns \<open>py_error + 'a\<close> with \<open>Inl\<close> for the exception.
\<close>

datatype py_error = ValueError | OverflowError | IndexError | KeyError | SystemExit

text \<open>
  A Python \<^verbatim>\<open>float\<close> is an IEEE 754 binary64 number: a sign together with either a
  finite magnitude (kept as the exact rational it denotes), or infinity; or a NaN.
\<close>

datatype pyfloat = Finite bool rat | Infinity bool | NaN

datatype pyval =
    PNone
  | PBool bool
  | PInt int
  | PFloat pyfloat
  | PStr string
  | PList "pyval list"
  | PTuple "pyval list"

text \<open>The builtin \<^verbatim>\<open>bool(x)\<close>: the truth value of an object.\<close>

fun py_bool :: "pyval \<Rightarrow> bool" where
  "py_bool PNone = False"
| "py_bool (PBool b) = b"
| "py_bool (PInt i) = (i \<noteq> 0)"
| "py_bool (PFloat (Finite neg m)) = (m \<noteq> 0)"
| "py_bool (PFloat (Infinity neg)) = True"
| "py_bool (PFloat NaN) = True"
| "py_bool (PStr s) = (s \<noteq> [])"
| "py_bool (PList xs) = (xs \<noteq> [])"
| "py_bool (PTuple xs) = (xs \<noteq> [])"

text \<open>
  \<^verbatim>\<open>str.isspace\<close> for one character, which is also the class \<^verbatim>\<open>\s\<close> of the \<^verbatim>\<open>re\<close>
  module on \<^verbatim>\<open>str\<close> patterns and the separator set of \<^verbatim>\<open>str.split()\<close> and
  \<^verbatim>\<open>str.rstrip()\<close>: the code points 9 to 13, 28 to 32, 0x85 and 0xA0.
\<close>

definition isspace :: "char \<Rightarrow> bool" where
  "isspace c \<longleftrightarrow> c \<in> set [CHR 0x09, CHR 0x0A, CHR 0x0B, CHR 0x0C, CHR 0x0D,
     CHR 0x1C, CHR 0x1D, CHR 0x1E, CHR 0x1F, CHR 0x20, CHR 0x85, CHR 0xA0]"

text \<open>\<^verbatim>\<open>line.rstrip()\<close>, \<^verbatim>\<open>line.split()\<close>, \<^verbatim>\<open>" ".join(words)\<close> and \<^verbatim>\<open>s.startswith(c)\<close>.\<close>

definition rstrip :: "string \<Rightarrow> string" where
  "rstrip s = rev (dropWhile isspace (rev s))"

fun split_acc :: "string \<Rightarrow> string \<Rightarrow> string list" where
  "split_acc w [] = (if w = [] then [] else [w])"
| "split_acc w (c # cs) =
     (if isspace c then (if w = [] then split_acc [] cs else w # split_acc [] cs)
      else split_acc (w @ [c]) cs)"

definition split :: "string \<Rightarrow> string list" where
  "split s = split_acc [] s"

fun join :: "string list \<Rightarrow> string" where
  "join [] = []"
| "join [w] = w"
| "join (w # v # ws) = w @ '' '' @ join (v # ws)"

fun startswith :: "string \<Rightarrow> char \<Rightarrow> bool" where
  "startswith [] q = False"
| "startswith (c # cs) q = (c = q)"

section \<open>The builtin \<^verbatim>\<open>float(str)\<close>\<close>

text \<open>
  \<^verbatim>\<open>float\<close> strips white space at both ends (the ASCII white space 9 to 13 and 32, and
  the two non-ASCII spaces 0x85 and 0xA0; the separators 28 to 31 are not stripped),
  removes underscores that stand between two digits and refuses any other underscore,
  then reads either a decimal numeral with an optional fraction and exponent, or one of
  \<^verbatim>\<open>inf\<close>, \<^verbatim>\<open>infinity\<close>, \<^verbatim>\<open>nan\<close> in any letter case, each with an optional sign. The
  whole text must be consumed; otherwise \<^verbatim>\<open>ValueError\<close> is raised (\<open>None\<close> here).
\<close>

definition float_space :: "char \<Rightarrow> bool" where
  "float_space c \<longleftrightarrow> c \<in> set [CHR 0x09, CHR 0x0A, CHR 0x0B, CHR 0x0C, CHR 0x0D,
     CHR 0x20, CHR 0x85, CHR 0xA0]"

definition float_strip :: "string \<Rightarrow> string" where
  "float_strip s = rev (dropWhile float_space (rev (dropWhile float_space s)))"

definition is_digit :: "char \<Rightarrow> bool" where
  "is_digit c \<longleftrightarrow> c \<in> set ''0123456789''"

definition digit_val :: "char \<Rightarrow> int" where
  "digit_val c = of_char c - 48"

definition digits_val :: "string \<Rightarrow> int" where
  "digits_val ds = foldl (\<lambda>a c. 10 * a + digit_val c) 0 ds"

text \<open>
  Underscores: \<open>prev\<close> is the character before the current one (\<open>None\<close> at the start).
  An underscore is allowed only after a digit and only before a digit.
\<close>

fun drop_underscores :: "char option \<Rightarrow> string \<Rightarrow> string option" where
  "drop_underscores prev [] = (if prev = Some CHR ''_'' then None else Some [])"
| "drop_underscores prev (c # cs) =
     (if c = CHR ''_'' then
        (case prev of
           None \<Rightarrow> None
         | Some p \<Rightarrow> if is_digit p then drop_underscores (Some c) cs else None)
      else if prev = Some CHR ''_'' \<and> \<not> is_digit c then None
      else map_option ((#) c) (drop_underscores (Some c) cs))"

definition take_sign :: "string \<Rightarrow> bool \<times> string" where
  "take_sign s =
     (case s of
        [] \<Rightarrow> (False, [])
      | c # cs \<Rightarrow> if c = CHR ''-'' then (True, cs) else if c = CHR ''+'' then (False, cs)
                 else (False, s))"

text \<open>
  The decimal numeral: sign, digits, optional point and digits (at least one digit in
  all), optional exponent \<^verbatim>\<open>e\<close> or \<^verbatim>\<open>E\<close> with optional sign and at least one digit. The
  result is the sign and the exact magnitude.
\<close>

definition parse_decimal :: "string \<Rightarrow> (bool \<times> rat) option" where
  "parse_decimal s =
     (let (neg, r1) = take_sign s;
          ip = takeWhile is_digit r1;
          r2 = dropWhile is_digit r1;
          (fp, r3) = (case r2 of
                        [] \<Rightarrow> ([], r2)
                      | c # t \<Rightarrow> if c = CHR ''.'' then (takeWhile is_digit t, dropWhile is_digit t)
                                else ([], r2));
          mant = digits_val (ip @ fp)
      in if ip = [] \<and> fp = [] then None
         else (case r3 of
                 [] \<Rightarrow> Some (neg, of_int mant * power_int 10 (- int (length fp)))
               | c # t \<Rightarrow>
                   if c = CHR ''e'' \<or> c = CHR ''E'' then
                     (let (eneg, ed) = take_sign t
                      in if ed \<noteq> [] \<and> list_all is_digit ed then
                           Some (neg, of_int mant * power_int 10
                             ((if eneg then - digits_val ed else digits_val ed)
                               - int (length fp)))
                         else None)
                   else None))"

definition to_lower :: "char \<Rightarrow> char" where
  "to_lower c = (if 65 \<le> (of_char c :: nat) \<and> (of_char c :: nat) \<le> 90
                 then char_of (of_char c + (32 :: nat)) else c)"

definition parse_inf_or_nan :: "string \<Rightarrow> pyfloat option" where
  "parse_inf_or_nan s =
     (let (neg, r) = take_sign s; l = map to_lower r
      in if l = ''inf'' \<or> l = ''infinity'' then Some (Infinity neg)
         else if l = ''nan'' then Some NaN
         else None)"

text \<open>
  Correct rounding of a positive rational to binary64 (round to nearest, ties to even):
  53 significant bits, least exponent \<open>-1074\<close>, and overflow to infinity when the
  rounded value reaches \<open>2^1024\<close>, that is when its binary logarithm is at least 1024.
  \<open>ilog2 v\<close> is the integer part of the binary logarithm of a positive \<open>v\<close>.
\<close>

definition ilog2 :: "rat \<Rightarrow> int" where
  "ilog2 v = (let (p, q) = quotient_of v; d = bitlen p - bitlen q
              in if power_int 2 d \<le> v then d else d - 1)"

definition round_half_even :: "rat \<Rightarrow> int" where
  "round_half_even x =
     (let f = \<lfloor>x\<rfloor>; d = x - of_int f
      in if d < 1 / 2 then f else if 1 / 2 < d then f + 1
         else if even f then f else f + 1)"

definition to_double :: "bool \<Rightarrow> rat \<Rightarrow> pyfloat" where
  "to_double neg v =
     (if v = 0 then Finite neg 0
      else let e = max (ilog2 v - 52) (- 1074);
               x = of_int (round_half_even (v / power_int 2 e)) * power_int 2 e
           in if 1024 \<le> ilog2 x then Infinity neg else Finite neg x)"

definition float_of_str :: "string \<Rightarrow> pyfloat option" where
  "float_of_str s =
     (case drop_underscores None (float_strip s) of
        None \<Rightarrow> None
      | Some u \<Rightarrow>
          (case parse_decimal u of
             Some (neg, v) \<Rightarrow> Some (to_double neg v)
           | None \<Rightarrow> parse_inf_or_nan u))"

text \<open>
  The builtin \<^verbatim>\<open>int(float)\<close> truncates towards zero; it raises \<^verbatim>\<open>ValueError\<close> on a
  NaN and \<^verbatim>\<open>OverflowError\<close> on an infinity. \<open>float_value\<close> is the number a finite
  float denotes, which is what \<^verbatim>\<open>==\<close> between an \<^verbatim>\<open>int\<close> and a \<^verbatim>\<open>float\<close> compares.
\<close>

fun py_int :: "pyfloat \<Rightarrow> py_error + int" where
  "py_int (Finite neg m) = Inr (if neg then - \<lfloor>m\<rfloor> else \<lfloor>m\<rfloor>)"
| "py_int (Infinity neg) = Inl OverflowError"
| "py_int NaN = Inl ValueError"

fun float_value :: "pyfloat \<Rightarrow> rat option" where
  "float_value (Finite neg m) = Some (if neg then - m else m)"
| "float_value (Infinity neg) = None"
| "float_value NaN = None"

section \<open>The value parsers of \<^verbatim>\<open>ConfigReader\<close>\<close>

text \<open>
  \<^verbatim>\<open>numberparse\<close>: the \<^verbatim>\<open>try\<close> block converts to \<^verbatim>\<open>float\<close> and then to \<^verbatim>\<open>int\<close>; a
  \<^verbatim>\<open>ValueError\<close> from either conversion is caught and the input string returned; any
  other exception leaves the function.
\<close>

definition numberparse :: "string \<Rightarrow> py_error + pyval" where
  "numberparse string =
     (case float_of_str string of
        None \<Rightarrow> Inr (PStr string)
      | Some floaty \<Rightarrow>
          (case py_int floaty of
             Inl e \<Rightarrow> if e = ValueError then Inr (PStr string) else Inl e
           | Inr i \<Rightarrow> if Some (of_int i) = float_value floaty then Inr (PInt i)
                     else Inr (PFloat floaty)))"

text \<open>
  \<^verbatim>\<open>boolparse\<close>: the comparison \<^verbatim>\<open>string == "True"\<close> holds for the \<^verbatim>\<open>str\<close> object
  \<^verbatim>\<open>"True"\<close> only; the result is \<^verbatim>\<open>bool(string)\<close>, the truth value of the argument.
\<close>

definition boolparse :: "pyval \<Rightarrow> pyval" where
  "boolparse string =
     (if string = PStr ''True'' \<or> string = PStr ''False'' then PBool (py_bool string)
      else string)"

section \<open>The two regular expressions of \<^verbatim>\<open>listparse\<close>\<close>

text \<open>
  The patterns use character classes, one greedy star on a class and one lazy plus on a
  class, which is also the only capture group. A character class is a union of atoms:
  listed characters, \<^verbatim>\<open>\s\<close>, or the dot (any character but the line feed).
\<close>

datatype atom = Chars string | Space | Dot

fun in_atom :: "atom \<Rightarrow> char \<Rightarrow> bool" where
  "in_atom (Chars cs) c = (c \<in> set cs)"
| "in_atom Space c = isspace c"
| "in_atom Dot c = (c \<noteq> CHR 0x0A)"

definition in_class :: "atom list \<Rightarrow> char \<Rightarrow> bool" where
  "in_class as c = list_ex (\<lambda>a. in_atom a c) as"

text \<open>
  The pieces of a pattern: a class matched once, a greedy star of a class, and the group
  \<^verbatim>\<open>(X+?)\<close>. \<open>GroupLazyStar\<close> is the state of the group after its first character:
  \<^verbatim>\<open>X+?\<close> consumes one \<^verbatim>\<open>X\<close> and continues as \<^verbatim>\<open>X*?\<close>.
\<close>

datatype piece =
    Once "atom list"
  | GreedyStar "atom list"
  | GroupLazyPlus "atom list"
  | GroupLazyStar "atom list"

text \<open>
  The backtracking matcher of \<^verbatim>\<open>re\<close>, anchored at the start of the text: \<open>re_match ps g s\<close>
  is the content of the group (\<open>g\<close> is what the group holds so far) with the text left
  after the match, or \<open>None\<close>. A greedy star first tries to take one more character and
  falls back to the rest of the pattern; a lazy star first tries the rest of the pattern
  and takes one more character when that fails.
\<close>

fun re_match :: "piece list \<Rightarrow> string \<Rightarrow> string \<Rightarrow> (string \<times> string) option" where
  "re_match [] g s = Some (g, s)"
| "re_match (Once cl # ps) g [] = None"
| "re_match (Once cl # ps) g (x # xs) = (if in_class cl x then re_match ps g xs else None)"
| "re_match (GreedyStar cl # ps) g [] = re_match ps g []"
| "re_match (GreedyStar cl # ps) g (x # xs) =
     (if in_class cl x then
        (case re_match (GreedyStar cl # ps) g xs of
           Some r \<Rightarrow> Some r
         | None \<Rightarrow> re_match ps g (x # xs))
      else re_match ps g (x # xs))"
| "re_match (GroupLazyPlus cl # ps) g [] = None"
| "re_match (GroupLazyPlus cl # ps) g (x # xs) =
     (if in_class cl x then re_match (GroupLazyStar cl # ps) (g @ [x]) xs else None)"
| "re_match (GroupLazyStar cl # ps) g [] = re_match ps g []"
| "re_match (GroupLazyStar cl # ps) g (x # xs) =
     (case re_match ps g (x # xs) of
        Some r \<Rightarrow> Some r
      | None \<Rightarrow> if in_class cl x then re_match (GroupLazyStar cl # ps) (g @ [x]) xs else None)"

text \<open>
  \<^verbatim>\<open>re.findall\<close> with one group: the group of every match, scanning from the left; the
  search resumes where the last match ended, and one character further on when nothing
  matches at a position or when the match was empty.
\<close>

fun findall :: "piece list \<Rightarrow> string \<Rightarrow> string list" where
  "findall ps [] = (case re_match ps [] [] of Some (g, rest) \<Rightarrow> [g] | None \<Rightarrow> [])"
| "findall ps (x # xs) =
     (case re_match ps [] (x # xs) of
        Some (g, rest) \<Rightarrow>
          if length rest < Suc (length xs) then g # findall ps rest else g # findall ps xs
      | None \<Rightarrow> findall ps xs)"

text \<open>\<^verbatim>\<open>re_quoted = re.compile('["\'](.+?)["\'][,\]]')\<close>\<close>

definition re_quoted :: "piece list" where
  "re_quoted = [Once [Chars [CHR 0x22, CHR 0x27]], GroupLazyPlus [Dot],
                Once [Chars [CHR 0x22, CHR 0x27]], Once [Chars '',]'']]"

text \<open>\<^verbatim>\<open>re_unquoted = re.compile('[\[\s]*(.+?)[,\]]')\<close>\<close>

definition re_unquoted :: "piece list" where
  "re_unquoted = [GreedyStar [Chars ''['', Space], GroupLazyPlus [Dot], Once [Chars '',]'']]"

section \<open>\<^verbatim>\<open>listparse\<close> and \<^verbatim>\<open>stringparse\<close>\<close>

text \<open>
  The loop over the unquoted elements: \<^verbatim>\<open>numberparse\<close> then \<^verbatim>\<open>boolparse\<close> on each;
  an exception of \<^verbatim>\<open>numberparse\<close> ends the loop and leaves \<^verbatim>\<open>listparse\<close>.
\<close>

fun convert_elements :: "string list \<Rightarrow> py_error + pyval list" where
  "convert_elements [] = Inr []"
| "convert_elements (e # es) =
     (case numberparse e of
        Inl err \<Rightarrow> Inl err
      | Inr v \<Rightarrow>
          (case convert_elements es of
             Inl err \<Rightarrow> Inl err
           | Inr vs \<Rightarrow> Inr (boolparse v # vs)))"

text \<open>
  \<^verbatim>\<open>listparse\<close> returns the quoted elements when there is one, else the converted
  unquoted elements when there is one, else falls off its end and returns \<^verbatim>\<open>None\<close>.
\<close>

definition listparse :: "string \<Rightarrow> py_error + pyval" where
  "listparse liststring =
     (let elements = findall re_quoted liststring
      in if elements \<noteq> [] then Inr (PList (map PStr elements))
         else let elements = findall re_unquoted liststring
              in if elements \<noteq> [] then
                   (case convert_elements elements of
                      Inl err \<Rightarrow> Inl err
                    | Inr result \<Rightarrow> Inr (PList result))
                 else Inr PNone)"

text \<open>
  \<^verbatim>\<open>stringparse\<close> assigns to \<^verbatim>\<open>words[0]\<close> and then to \<^verbatim>\<open>words[-1]\<close>; both raise
  \<^verbatim>\<open>IndexError\<close> on an empty list. The slices \<^verbatim>\<open>w[1:]\<close> and \<^verbatim>\<open>w[:-1]\<close> never raise.
\<close>

definition stringparse :: "string list \<Rightarrow> py_error + string" where
  "stringparse words =
     (if words = [] then Inl IndexError
      else let words1 = words[0 := drop 1 (words ! 0)];
               n = length words1 - 1;
               words2 = words1[n := butlast (words1 ! n)]
           in Inr (join words2))"

section \<open>\<^verbatim>\<open>read_config\<close>\<close>

text \<open>
  The configuration is a dictionary from parameter names to values. What \<^verbatim>\<open>print\<close>
  writes is kept as the list of the printed lines. \<open>read_line\<close> is the body of the loop
  over the lines of the file: from one line, the dictionary and the output so far it gives
  the output and either the exception that leaves \<^verbatim>\<open>read_config\<close> or the dictionary
  after the line (unchanged where the body runs into \<^verbatim>\<open>continue\<close>). \<^verbatim>\<open>words.pop(0)\<close>
  raises \<^verbatim>\<open>IndexError\<close> on an empty list, and \<^verbatim>\<open>sys.exit()\<close> raises \<^verbatim>\<open>SystemExit\<close>.
\<close>

type_synonym config = "string \<rightharpoonup> pyval"

definition warning_msg :: "string \<Rightarrow> string" where
  "warning_msg paramname = ''WARNING: no value specified for parameter '' @ paramname @ ''.''"

definition error_msg :: "string \<Rightarrow> string \<Rightarrow> string" where
  "error_msg filepath line =
     ''ERROR while parsing '' @ filepath @ '' --'' @ '' '' @
     ''too many values in line '' @ [CHR 0x27] @ line @ [CHR 0x27] @ ''.''"

definition read_line ::
  "string \<Rightarrow> string \<Rightarrow> config \<Rightarrow> string list \<Rightarrow> string list \<times> (py_error + config)" where
  "read_line filepath raw cfg out =
     (let line = rstrip raw
      in if line = [] then (out, Inr cfg)
         else if startswith line CHR ''#'' then (out, Inr cfg)
         else
           (case split line of
              [] \<Rightarrow> (out, Inl IndexError)
            | paramname # words \<Rightarrow>
                if words = [] then
                  (out @ [warning_msg paramname], Inr (cfg(paramname \<mapsto> PNone)))
                else if startswith (words ! 0) CHR ''['' then
                  (case listparse (join words) of
                     Inl err \<Rightarrow> (out, Inl err)
                   | Inr paramvalue \<Rightarrow> (out, Inr (cfg(paramname \<mapsto> paramvalue))))
                else if startswith (words ! 0) CHR 0x22 \<or> startswith (words ! 0) CHR 0x27 then
                  (case stringparse words of
                     Inl err \<Rightarrow> (out, Inl err)
                   | Inr paramvalue \<Rightarrow> (out, Inr (cfg(paramname \<mapsto> PStr paramvalue))))
                else if length words > 1 then
                  (out @ [error_msg filepath line], Inl SystemExit)
                else
                  (case numberparse (words ! 0) of
                     Inl err \<Rightarrow> (out, Inl err)
                   | Inr paramvalue \<Rightarrow> (out, Inr (cfg(paramname \<mapsto> boolparse paramvalue))))))"

text \<open>The loop \<^verbatim>\<open>for line in lines\<close>: an exception ends it.\<close>

fun read_lines ::
  "string \<Rightarrow> string list \<Rightarrow> config \<Rightarrow> string list \<Rightarrow> string list \<times> (py_error + config)" where
  "read_lines filepath [] cfg out = (out, Inr cfg)"
| "read_lines filepath (raw # lines) cfg out =
     (case read_line filepath raw cfg out of
        (out', Inl err) \<Rightarrow> (out', Inl err)
      | (out', Inr cfg') \<Rightarrow> read_lines filepath lines cfg' out')"

text \<open>
  \<^verbatim>\<open>read_config\<close> on the lines that \<^verbatim>\<open>f.readlines()\<close> returned, starting from the empty
  dictionary; the result is what the method returns and stores.
\<close>

definition read_config :: "string \<Rightarrow> string list \<Rightarrow> string list \<times> (py_error + config)" where
  "read_config filepath lines = read_lines filepath lines Map.empty []"

section \<open>\<^verbatim>\<open>get\<close> and \<^verbatim>\<open>set\<close>\<close>

text \<open>
  \<^verbatim>\<open>[self.params[name] for name in paramname]\<close> looks the names up from left to right
  and raises \<^verbatim>\<open>KeyError\<close> at the first one that is not a key.
\<close>

fun lookup_all :: "config \<Rightarrow> string list \<Rightarrow> py_error + pyval list" where
  "lookup_all params [] = Inr []"
| "lookup_all params (name # names) =
     (case params name of
        None \<Rightarrow> Inl KeyError
      | Some v \<Rightarrow>
          (case lookup_all params names of
             Inl err \<Rightarrow> Inl err
           | Inr vs \<Rightarrow> Inr (v # vs)))"

definition get :: "config \<Rightarrow> string list \<Rightarrow> py_error + pyval" where
  "get params paramname =
     (case lookup_all params paramname of
        Inl err \<Rightarrow> Inl err
      | Inr values \<Rightarrow> if length values = 1 then Inr (values ! 0) else Inr (PTuple values))"

text \<open>\<^verbatim>\<open>self.params.update({paramname: value})\<close>; the model returns the new dictionary.\<close>

definition set_param :: "config \<Rightarrow> string \<Rightarrow> pyval \<Rightarrow> config" where
  "set_param params paramname value = params(paramname \<mapsto> value)"

section \<open>Quoted substrings, stated without the regular expression\<close>

text \<open>
  The specification describes what \<^verbatim>\<open>re_quoted\<close> finds as: a quote character, any
  characters, then a quote character immediately followed by a comma or closing bracket.
  The definitions of this section say that on the text itself, to compare the matcher
  with. \<open>starts_quoted b\<close>: such a quoted substring starts at the first character of
  \<open>b\<close>; its content is not empty and holds no line feed. \<open>no_close t\<close>: no quote
  character of \<open>t\<close> is directly followed by a comma or closing bracket. \<open>quoted_substrings s xs\<close>:
  \<open>xs\<close> are the contents found when \<open>s\<close> is scanned from the left: each quoted substring
  starts at the first position where one can start, ends at the first closing quote that
  can end it, and the scan resumes behind it.
\<close>

definition is_quote :: "char \<Rightarrow> bool" where
  "is_quote ch \<longleftrightarrow> ch = CHR 0x22 \<or> ch = CHR 0x27"

definition is_delim :: "char \<Rightarrow> bool" where
  "is_delim ch \<longleftrightarrow> ch = CHR '','' \<or> ch = CHR '']''"

definition starts_quoted :: "string \<Rightarrow> bool" where
  "starts_quoted b \<longleftrightarrow>
     (\<exists>p x q c r. b = p # x @ q # c # r \<and> is_quote p \<and> x \<noteq> [] \<and> CHR 0x0A \<notin> set x \<and>
        is_quote q \<and> is_delim c)"

fun no_close :: "string \<Rightarrow> bool" where
  "no_close (a # b # t) = (\<not> (is_quote a \<and> is_delim b) \<and> no_close (b # t))"
| "no_close t = True"

inductive quoted_substrings :: "string \<Rightarrow> string list \<Rightarrow> bool" where
  no_more: "(\<And>a b. s = a @ b \<Longrightarrow> \<not> starts_quoted b) \<Longrightarrow> quoted_substrings s []"
| found: "s = a @ p # x @ q # c # r \<Longrightarrow>
         (\<And>a1 a2. a = a1 @ a2 \<Longrightarrow> a2 \<noteq> [] \<Longrightarrow> \<not> starts_quoted (a2 @ p # x @ q # c # r)) \<Longrightarrow>
         is_quote p \<Longrightarrow> x \<noteq> [] \<Longrightarrow> CHR 0x0A \<notin> set x \<Longrightarrow> no_close (tl x) \<Longrightarrow>
         is_quote q \<Longrightarrow> is_delim c \<Longrightarrow> quoted_substrings r xs \<Longrightarrow>
         quoted_substrings s (x # xs)"

section \<open>Evaluation of \<^verbatim>\<open>float\<close> on the literals used below\<close>

lemma float_of_str_3: "float_of_str ''3'' = Some (Finite False 3)" by code_simp
lemma float_of_str_3_5: "float_of_str ''3.5'' = Some (Finite False (7 / 2))" by code_simp
lemma float_of_str_3_0: "float_of_str ''3.0'' = Some (Finite False 3)" by code_simp
lemma float_of_str_abc: "float_of_str ''abc'' = None" by code_simp
lemma float_of_str_inf: "float_of_str ''inf'' = Some (Infinity False)" by code_simp
lemma float_of_str_Infinity: "float_of_str ''Infinity'' = Some (Infinity False)" by code_simp
lemma float_of_str_minus_inf: "float_of_str ''-inf'' = Some (Infinity True)" by code_simp
lemma float_of_str_nan: "float_of_str ''nan'' = Some NaN" by code_simp
lemma float_of_str_neg: "float_of_str ''-2.25'' = Some (Finite True (9 / 4))" by code_simp

section \<open>Properties of \<^verbatim>\<open>numberparse\<close> and \<^verbatim>\<open>boolparse\<close>\<close>

lemma numberparse_none: "float_of_str s = None \<Longrightarrow> numberparse s = Inr (PStr s)"
  by (simp add: numberparse_def)

lemma numberparse_integral:
  assumes "float_of_str s = Some f" and "float_value f = Some (of_int i)"
  shows "numberparse s = Inr (PInt i)"
proof (cases f)
  case (Finite neg m)
  with assms(2) have "(if neg then - m else m) = of_int i" by simp
  then have "(if neg then - \<lfloor>m\<rfloor> else \<lfloor>m\<rfloor>) = i"
    by (cases neg) (auto simp: minus_equation_iff [of m])
  with assms Finite show ?thesis by (simp add: numberparse_def)
qed (use assms in simp_all)

lemma numberparse_fractional:
  assumes "float_of_str s = Some f" and "float_value f = Some v" and "v \<notin> \<int>"
  shows "numberparse s = Inr (PFloat f)"
proof (cases f)
  case (Finite neg m)
  with assms have "(if neg then - m else m) \<notin> \<int>" by auto
  then have "of_int (if neg then - \<lfloor>m\<rfloor> else \<lfloor>m\<rfloor>) \<noteq> (if neg then - m else m)"
    by (metis Ints_of_int)
  with assms Finite show ?thesis by (auto simp: numberparse_def)
qed (use assms in simp_all)

lemma numberparse_infinite: "float_of_str s = Some (Infinity neg) \<Longrightarrow> numberparse s = Inl OverflowError"
  by (simp add: numberparse_def)

lemma numberparse_nan: "float_of_str s = Some NaN \<Longrightarrow> numberparse s = Inr (PStr s)"
  by (simp add: numberparse_def)
lemma boolparse_other: "v \<noteq> PStr ''True'' \<Longrightarrow> v \<noteq> PStr ''False'' \<Longrightarrow> boolparse v = v"
  by (simp add: boolparse_def)

lemma seven_halves_not_int: "(7 / 2 :: rat) \<notin> \<int>"
proof
  assume "(7 / 2 :: rat) \<in> \<int>"
  then obtain k :: int where "(7 / 2 :: rat) = of_int k" by (auto elim: Ints_cases)
  then have "(of_int 7 :: rat) = of_int (2 * k)" by simp
  then have "(7 :: int) = 2 * k" by (simp only: of_int_eq_iff)
  then show False by presburger
qed

lemma numberparse_3: "numberparse ''3'' = Inr (PInt 3)"
  by (rule numberparse_integral [OF float_of_str_3]) simp

lemma numberparse_3_0: "numberparse ''3.0'' = Inr (PInt 3)"
  by (rule numberparse_integral [OF float_of_str_3_0]) simp

lemma numberparse_3_5: "numberparse ''3.5'' = Inr (PFloat (Finite False (7 / 2)))"
  by (rule numberparse_fractional [OF float_of_str_3_5, of "7 / 2"])
    (simp_all add: seven_halves_not_int)

text \<open>
  Claim C1. \<^verbatim>\<open>boolparse\<close> turns the string \<^verbatim>\<open>"True"\<close> into the boolean true, the
  string \<^verbatim>\<open>"False"\<close> into the boolean false, and returns every other value unchanged.
  The code returns \<^verbatim>\<open>bool(string)\<close>, the truth value of a non-empty string, so
  \<^verbatim>\<open>"False"\<close> becomes the boolean true: the docstring of \<^verbatim>\<open>listparse\<close> expects
  \<^verbatim>\<open>[True, 1337, False, 666]\<close> to keep its \<^verbatim>\<open>False\<close>.
\<close>

theorem boolparse_False_is_True: "boolparse (PStr ''False'') = PBool True"
  by (simp add: boolparse_def)

text \<open>
  Claim C3. \<^verbatim>\<open>numberparse\<close> parses the token as a float: when the parse fails the
  token is returned unchanged; when it succeeds with a value that is an integer the result
  is that integer; when it succeeds with a fractional value the result is the float. So
  \<^verbatim>\<open>"3"\<close> gives the integer 3, \<^verbatim>\<open>"3.5"\<close> the float 3.5 and \<^verbatim>\<open>"3.0"\<close> the integer 3.
\<close>

theorem numberparse_cases:
  "(float_of_str s = None \<longrightarrow> numberparse s = Inr (PStr s)) \<and>
   (\<forall>f i. float_of_str s = Some f \<and> float_value f = Some (of_int i) \<longrightarrow>
      numberparse s = Inr (PInt i)) \<and>
   (\<forall>f v. float_of_str s = Some f \<and> float_value f = Some v \<and> v \<notin> \<int> \<longrightarrow>
      numberparse s = Inr (PFloat f)) \<and>
   numberparse ''3'' = Inr (PInt 3) \<and>
   numberparse ''3.5'' = Inr (PFloat (Finite False (7 / 2))) \<and>
   numberparse ''3.0'' = Inr (PInt 3)"
proof (intro conjI allI impI)
  assume "float_of_str s = None"
  then show "numberparse s = Inr (PStr s)" by (rule numberparse_none)
next
  fix f i assume "float_of_str s = Some f \<and> float_value f = Some (of_int i)"
  then show "numberparse s = Inr (PInt i)" by (elim conjE) (rule numberparse_integral)
next
  fix f v assume "float_of_str s = Some f \<and> float_value f = Some v \<and> v \<notin> \<int>"
  then show "numberparse s = Inr (PFloat f)" by (elim conjE) (rule numberparse_fractional)
qed (rule numberparse_3 numberparse_3_5 numberparse_3_0)+

theorem numberparse_cases_witness:
  "float_of_str ''abc'' = None \<and> numberparse ''abc'' = Inr (PStr ''abc'') \<and>
   float_of_str ''3.5'' = Some (Finite False (7 / 2)) \<and>
   float_value (Finite False (7 / 2)) = Some (7 / 2) \<and> (7 / 2 :: rat) \<notin> \<int> \<and>
   numberparse ''3.5'' = Inr (PFloat (Finite False (7 / 2))) \<and>
   float_of_str ''3.0'' = Some (Finite False 3) \<and>
   float_value (Finite False 3) = Some (of_int 3) \<and>
   numberparse ''3.0'' = Inr (PInt 3)"
proof -
  have v1: "float_value (Finite False (7 / 2)) = Some (7 / 2)" by simp
  have v2: "float_value (Finite False 3) = Some (of_int 3)" by simp
  from numberparse_cases [of "''abc''"] float_of_str_abc
  have a: "numberparse ''abc'' = Inr (PStr ''abc'')" by (elim conjE) (erule mp)
  from numberparse_cases [of "''3.5''"]
  have "\<forall>f v. float_of_str ''3.5'' = Some f \<and> float_value f = Some v \<and> v \<notin> \<int> \<longrightarrow>
      numberparse ''3.5'' = Inr (PFloat f)" by (elim conjE)
  with float_of_str_3_5 v1 seven_halves_not_int
  have b: "numberparse ''3.5'' = Inr (PFloat (Finite False (7 / 2)))" by blast
  from numberparse_cases [of "''3.0''"]
  have "\<forall>f i. float_of_str ''3.0'' = Some f \<and> float_value f = Some (of_int i) \<longrightarrow>
      numberparse ''3.0'' = Inr (PInt i)" by (elim conjE)
  with float_of_str_3_0 v2
  have c: "numberparse ''3.0'' = Inr (PInt 3)" by blast
  from float_of_str_abc a float_of_str_3_5 v1 seven_halves_not_int b float_of_str_3_0 v2 c
  show ?thesis by (intro conjI)
qed

text \<open>
  Claim C10. \<^verbatim>\<open>numberparse\<close> is not total: a token that parses to an infinite float,
  such as \<^verbatim>\<open>"inf"\<close> or \<^verbatim>\<open>"Infinity"\<close>, makes the conversion to \<^verbatim>\<open>int\<close> raise
  \<^verbatim>\<open>OverflowError\<close>, which the handler for \<^verbatim>\<open>ValueError\<close> does not catch.
\<close>

theorem numberparse_not_total:
  "numberparse ''inf'' = Inl OverflowError \<and>
   numberparse ''Infinity'' = Inl OverflowError \<and>
   (\<forall>s neg. float_of_str s = Some (Infinity neg) \<longrightarrow> numberparse s = Inl OverflowError)"
  using numberparse_infinite float_of_str_inf float_of_str_Infinity by blast

theorem numberparse_not_total_witness:
  "float_of_str ''-inf'' = Some (Infinity True) \<and> numberparse ''-inf'' = Inl OverflowError"
  using numberparse_not_total float_of_str_minus_inf by blast

section \<open>The matcher on \<^verbatim>\<open>re_quoted\<close>\<close>

lemma in_class_quote [simp]: "in_class [Chars [CHR 0x22, CHR 0x27]] ch = is_quote ch"
  by (auto simp: in_class_def is_quote_def)

lemma in_class_delim [simp]: "in_class [Chars '',]''] ch = is_delim ch"
  by (auto simp: in_class_def is_delim_def)

lemma in_class_dot [simp]: "in_class [Dot] ch = (ch \<noteq> CHR 0x0A)"
  by (simp add: in_class_def)

lemma quote_not_delim: "is_quote ch \<Longrightarrow> \<not> is_delim ch"
  by (auto simp: is_quote_def is_delim_def)

lemma close_match:
  "re_match [Once [Chars [CHR 0x22, CHR 0x27]], Once [Chars '',]'']] g s = Some (g', rest) \<longleftrightarrow>
     (\<exists>q c. s = q # c # rest \<and> is_quote q \<and> is_delim c \<and> g' = g)"
  by (cases s; cases "tl s") auto

lemma no_close_append: "no_close (xs @ ys) \<Longrightarrow> no_close xs"
  by (induction xs rule: no_close.induct) auto

lemma lazy_sound:
  "re_match [GroupLazyStar [Dot], Once [Chars [CHR 0x22, CHR 0x27]], Once [Chars '',]'']] g s
     = Some (g', rest) \<Longrightarrow>
   \<exists>mid q c. g' = g @ mid \<and> s = mid @ q # c # rest \<and> CHR 0x0A \<notin> set mid \<and>
     is_quote q \<and> is_delim c \<and> no_close (mid @ [q])"
proof (induction s arbitrary: g)
  case Nil
  then show ?case by simp
next
  case (Cons y ys)
  let ?tail = "[Once [Chars [CHR 0x22, CHR 0x27]], Once [Chars '',]'']]"
  show ?case
  proof (cases "re_match ?tail g (y # ys)")
    case (Some r)
    with Cons.prems have r: "r = (g', rest)" by simp
    from Some [unfolded r close_match] obtain q c where
      "y # ys = q # c # rest" "is_quote q" "is_delim c" "g' = g" by blast
    then show ?thesis by (intro exI [of _ "[]"] exI [of _ q] exI [of _ c]) simp
  next
    case None
    with Cons.prems have y: "y \<noteq> CHR 0x0A"
      and rec: "re_match (GroupLazyStar [Dot] # ?tail) (g @ [y]) ys = Some (g', rest)"
      by (auto split: if_splits)
    from Cons.IH [OF rec] obtain mid q c where m: "g' = (g @ [y]) @ mid" "ys = mid @ q # c # rest"
      "CHR 0x0A \<notin> set mid" "is_quote q" "is_delim c" "no_close (mid @ [q])" by blast
    have "\<not> (is_quote y \<and> is_delim (hd (mid @ [q])))"
    proof
      assume a: "is_quote y \<and> is_delim (hd (mid @ [q]))"
      show False
      proof (cases mid)
        case Nil
        with a m(4) quote_not_delim show False by auto
      next
        case (Cons z zs)
        with a m(2) have "re_match ?tail g (y # ys) = Some (g, zs @ q # c # rest)"
          by simp
        with None show False by simp
      qed
    qed
    then have "no_close ((y # mid) @ [q])" using m(6) by (cases mid) auto
    with m y show ?thesis
      by (intro exI [of _ "y # mid"] exI [of _ q] exI [of _ c]) simp
  qed
qed

lemma lazy_complete:
  "CHR 0x0A \<notin> set mid \<Longrightarrow> is_quote q \<Longrightarrow> is_delim c \<Longrightarrow>
   re_match [GroupLazyStar [Dot], Once [Chars [CHR 0x22, CHR 0x27]], Once [Chars '',]'']] g
     (mid @ q # c # rest) \<noteq> None"
proof (induction mid arbitrary: g)
  case Nil
  then show ?case by simp
next
  case (Cons y mid)
  then show ?case by (auto split: option.splits)
qed

lemma match_sound:
  assumes "re_match re_quoted [] s = Some (g, rest)"
  shows "\<exists>p q c. s = p # g @ q # c # rest \<and> is_quote p \<and> is_quote q \<and> is_delim c \<and>
     g \<noteq> [] \<and> CHR 0x0A \<notin> set g \<and> no_close (tl g)"
proof -
  from assms obtain p y ys where s: "s = p # y # ys" "is_quote p" "y \<noteq> CHR 0x0A"
    and rec: "re_match [GroupLazyStar [Dot], Once [Chars [CHR 0x22, CHR 0x27]], Once [Chars '',]'']]
      [y] ys = Some (g, rest)"
    by (cases s; cases "tl s") (auto simp: re_quoted_def split: if_splits)
  from lazy_sound [OF rec] obtain mid q c where m: "g = [y] @ mid" "ys = mid @ q # c # rest"
    "CHR 0x0A \<notin> set mid" "is_quote q" "is_delim c" "no_close (mid @ [q])" by blast
  from m(6) have "no_close mid" by (rule no_close_append)
  with s m show ?thesis by auto
qed

lemma match_complete:
  assumes "starts_quoted s"
  shows "re_match re_quoted [] s \<noteq> None"
proof -
  from assms obtain p x q c r where s: "s = p # x @ q # c # r" "is_quote p" "x \<noteq> []"
    "CHR 0x0A \<notin> set x" "is_quote q" "is_delim c"
    unfolding starts_quoted_def by blast
  from s(3) obtain y ys where x: "x = y # ys" by (cases x) auto
  with s(4) have "CHR 0x0A \<notin> set ys" "y \<noteq> CHR 0x0A" by auto
  from lazy_complete [OF this(1) s(5) s(6), of "[y]" r] s x this(2)
  show ?thesis by (simp add: re_quoted_def)
qed

lemma quoted_substrings_Cons:
  assumes "\<not> starts_quoted (y # s)" and "quoted_substrings s xs"
  shows "quoted_substrings (y # s) xs"
  using assms(2)
proof (cases rule: quoted_substrings.cases)
  case no_more
  show ?thesis unfolding no_more(1)
  proof (rule quoted_substrings.no_more)
    fix a b assume ab: "y # s = a @ b"
    show "\<not> starts_quoted b"
    proof (cases a)
      case Nil
      with ab assms(1) show ?thesis by simp
    next
      case (Cons z zs)
      with ab have "s = zs @ b" by simp
      then show ?thesis by (rule no_more(2))
    qed
  qed
next
  case (found a p x q c r xs')
  show ?thesis unfolding found(1)
  proof (rule quoted_substrings.found [where a = "y # a"])
    show "y # s = (y # a) @ p # x @ q # c # r" using found(2) by simp
  next
    fix a1 a2 assume a: "y # a = a1 @ a2" "a2 \<noteq> []"
    show "\<not> starts_quoted (a2 @ p # x @ q # c # r)"
    proof (cases a1)
      case Nil
      with a have "a2 @ p # x @ q # c # r = y # s" using found(2) by simp
      with assms(1) show ?thesis by simp
    next
      case (Cons z zs)
      with a have "a = zs @ a2" by simp
      from found(3) [OF this a(2)] show ?thesis .
    qed
  qed (use found in simp_all)
qed

lemma findall_quoted_spec: "quoted_substrings s (findall re_quoted s)"
proof (induction s rule: length_induct)
  case (1 s)
  show ?case
  proof (cases s)
    case Nil
    have "re_match re_quoted [] [] = None" by (simp add: re_quoted_def)
    moreover have "quoted_substrings [] []"
      by (rule quoted_substrings.no_more) (simp add: starts_quoted_def)
    ultimately show ?thesis using Nil by simp
  next
    case (Cons y ys)
    show ?thesis
    proof (cases "re_match re_quoted [] (y # ys)")
      case None
      then have "\<not> starts_quoted (y # ys)" using match_complete by blast
      moreover have "quoted_substrings ys (findall re_quoted ys)"
        using 1 Cons by simp
      ultimately have "quoted_substrings (y # ys) (findall re_quoted ys)"
        by (rule quoted_substrings_Cons)
      with None Cons show ?thesis by simp
    next
      case (Some m)
      obtain g rest where m: "m = (g, rest)" by (cases m)
      from match_sound [OF Some [unfolded m]] obtain p q c where
        d: "y # ys = p # g @ q # c # rest" "is_quote p" "is_quote q" "is_delim c"
        "g \<noteq> []" "CHR 0x0A \<notin> set g" "no_close (tl g)" by blast
      then have len: "length rest < Suc (length ys)"
        by (metis add_Suc_right le_imp_less_Suc length_Cons length_append less_add_Suc2 less_imp_le list.inject)
      then have IH: "quoted_substrings rest (findall re_quoted rest)"
        using 1 Cons by simp
      have "quoted_substrings (y # ys) (g # findall re_quoted rest)"
        by (rule quoted_substrings.found [where a = "[]" and p = p and q = q and c = c and r = rest])
          (use d IH in simp_all)
      with Some m len Cons show ?thesis by simp
    qed
  qed
qed

section \<open>Properties of \<^verbatim>\<open>listparse\<close>\<close>

lemma listparse_mixing:
  "listparse ''[\"mixing\", 42, is, 'bad']'' = Inr (PList [PStr ''mixing'', PStr ''bad''])"
  by code_simp

lemma findall_quoted_example:
  "findall re_quoted ''[\"54\", True, 'two words']'' = [''54'', ''two words'']"
  by code_simp

lemma findall_unquoted_words:
  "findall re_unquoted ''[this, is, a, valid, list]'' = [''this'', ''is'', ''a'', ''valid'', ''list'']"
  by code_simp

lemma listparse_words:
  "listparse ''[this, is, a, valid, list]'' =
     Inr (PList [PStr ''this'', PStr ''is'', PStr ''a'', PStr ''valid'', PStr ''list''])"
  by code_simp

lemma listparse_integers:
  "listparse ''[54, 74, 90, 2014]'' = Inr (PList [PInt 54, PInt 74, PInt 90, PInt 2014])"
  by code_simp

lemma listparse_unquoted:
  "findall re_quoted s = [] \<Longrightarrow> findall re_unquoted s \<noteq> [] \<Longrightarrow>
   listparse s =
     (case convert_elements (findall re_unquoted s) of
        Inl err \<Rightarrow> Inl err
      | Inr result \<Rightarrow> Inr (PList result))"
  by (simp add: listparse_def)

lemma quoted_substrings_NilD:
  assumes "quoted_substrings s []" and "s = a @ b"
  shows "\<not> starts_quoted b"
  using assms by (cases rule: quoted_substrings.cases) blast

text \<open>
  Claim C2. When the list text holds a quoted substring (a quote character, one or more
  characters other than a line feed, a quote character directly followed by a comma or a
  closing bracket), \<^verbatim>\<open>listparse\<close> returns the list of the quoted substrings that
  \<^verbatim>\<open>re_quoted\<close> finds, in their order in the text, each as a string and none converted;
  that list is not empty and is the left-to-right scan \<open>quoted_substrings\<close>, so that
  nothing outside quotes is returned. The text \<^verbatim>\<open>["mixing", 42, is, 'bad']\<close> gives
  the two strings \<^verbatim>\<open>mixing\<close> and \<^verbatim>\<open>bad\<close>.
\<close>

theorem listparse_quoted:
  assumes "liststring = a @ p # x @ q # c # r"
    and "is_quote p" and "x \<noteq> []" and "CHR 0x0A \<notin> set x" and "is_quote q" and "is_delim c"
  shows "findall re_quoted liststring \<noteq> [] \<and>
         listparse liststring = Inr (PList (map PStr (findall re_quoted liststring))) \<and>
         quoted_substrings liststring (findall re_quoted liststring) \<and>
         listparse ''[\"mixing\", 42, is, 'bad']'' = Inr (PList [PStr ''mixing'', PStr ''bad''])"
proof -
  have spec: "quoted_substrings liststring (findall re_quoted liststring)"
    by (rule findall_quoted_spec)
  have "starts_quoted (p # x @ q # c # r)"
    unfolding starts_quoted_def using assms by blast
  with spec assms(1) have ne: "findall re_quoted liststring \<noteq> []"
    using quoted_substrings_NilD by metis
  then have "listparse liststring = Inr (PList (map PStr (findall re_quoted liststring)))"
    by (simp add: listparse_def)
  with ne spec listparse_mixing show ?thesis by blast
qed

theorem listparse_quoted_witness:
  "listparse ''[\"54\", True, 'two words']'' = Inr (PList [PStr ''54'', PStr ''two words''])"
proof -
  have eq: "''[\"54\", True, 'two words']'' =
      ''['' @ CHR 0x22 # ''54'' @ CHR 0x22 # CHR '','' # '' True, 'two words']''"
    by simp
  have q: "is_quote (CHR 0x22)" and d: "is_delim (CHR '','')"
    by (simp_all add: is_quote_def is_delim_def)
  have ne: "''54'' \<noteq> []" and nl: "CHR 0x0A \<notin> set ''54''" by simp_all
  from listparse_quoted [OF eq q ne nl q d]
  have "listparse ''[\"54\", True, 'two words']'' =
      Inr (PList (map PStr (findall re_quoted ''[\"54\", True, 'two words']'')))"
    by (elim conjE)
  then show ?thesis by (simp only: findall_quoted_example list.map)
qed

text \<open>
  Claim C4. On a list text without quoted substring \<^verbatim>\<open>listparse\<close> converts each
  unquoted token to a number, else to the boolean that the token \<^verbatim>\<open>True\<close> or
  \<^verbatim>\<open>False\<close> names, else keeps the string. The two examples of the claim hold
  (\<open>listparse_words\<close>, \<open>listparse_integers\<close>), but the token \<^verbatim>\<open>False\<close> becomes the
  boolean true, against the docstring of \<^verbatim>\<open>listparse\<close>, whose example
  \<^verbatim>\<open>[True, 1337, False, 666]\<close> is evaluated here.
\<close>

theorem listparse_False_is_True:
  "listparse ''[True, 1337, False, 666]'' =
     Inr (PList [PBool True, PInt 1337, PBool True, PInt 666])"
  by code_simp

section \<open>Properties of \<^verbatim>\<open>stringparse\<close> and \<^verbatim>\<open>read_config\<close>\<close>

lemma split_acc_nonempty: "w' \<in> set (split_acc w s) \<Longrightarrow> w' \<noteq> []"
  by (induction s arbitrary: w) (auto split: if_splits)

lemma split_nonempty: "w \<in> set (split s) \<Longrightarrow> w \<noteq> []"
  unfolding split_def by (rule split_acc_nonempty)

lemma split_Nil: "split [] = []"
  by (simp add: split_def)

lemma read_lines_append:
  "read_lines fp (pre @ post) cfg out =
     (case read_lines fp pre cfg out of
        (out', Inl err) \<Rightarrow> (out', Inl err)
      | (out', Inr cfg') \<Rightarrow> read_lines fp post cfg' out')"
  by (induction pre arbitrary: cfg out) (auto split: prod.splits sum.splits)

lemma read_lines_member_error:
  assumes "\<And>cfg out. \<exists>out' e. read_line fp raw cfg out = (out', Inl e)"
    and "raw \<in> set lines"
  shows "\<exists>out' e. read_lines fp lines cfg out = (out', Inl e)"
  using assms(2)
proof (induction lines arbitrary: cfg out)
  case Nil
  then show ?case by simp
next
  case (Cons l lines)
  show ?case
  proof (cases "read_line fp l cfg out")
    case (Pair o1 r1)
    show ?thesis
    proof (cases r1)
      case (Inl e)
      with Pair show ?thesis by simp
    next
      case (Inr c)
      with Pair assms(1) [of cfg out] have "l \<noteq> raw" by auto
      with Cons.prems have "raw \<in> set lines" by simp
      from Cons.IH [OF this, of c o1] Pair Inr show ?thesis by simp
    qed
  qed
qed

lemma read_line_no_value:
  assumes "split (rstrip raw) = [paramname]" and "\<not> startswith (rstrip raw) CHR ''#''"
  shows "read_line fp raw cfg out = (out @ [warning_msg paramname], Inr (cfg(paramname \<mapsto> PNone)))"
proof -
  from assms(1) have "rstrip raw \<noteq> []" using split_Nil by auto
  with assms show ?thesis by (simp add: read_line_def)
qed

lemma read_line_too_many:
  assumes "split (rstrip raw) = paramname # words" and "1 < length words"
    and "\<not> startswith (words ! 0) CHR ''[''"
    and "\<not> startswith (words ! 0) CHR 0x22" and "\<not> startswith (words ! 0) CHR 0x27"
    and "\<not> startswith (rstrip raw) CHR ''#''"
  shows "read_line fp raw cfg out = (out @ [error_msg fp (rstrip raw)], Inl SystemExit)"
proof -
  from assms(1) have "rstrip raw \<noteq> []" using split_Nil by auto
  moreover from assms(2) have "words \<noteq> []" by auto
  ultimately show ?thesis using assms by (simp add: read_line_def)
qed

lemma join_snoc: "ws \<noteq> [] \<Longrightarrow> join (ws @ [l]) = join ws @ '' '' @ l"
  by (induction ws rule: join.induct) simp_all

lemma join_tl_first: "w \<noteq> [] \<Longrightarrow> join (tl w # mid) = tl (join (w # mid))"
  by (cases mid) simp_all

lemma stringparse_single: "stringparse [w] = Inr (butlast (tl w))"
  by (simp add: stringparse_def drop_Suc)

lemma stringparse_several:
  "stringparse (w # mid @ [l]) = Inr (join (tl w # mid @ [butlast l]))"
  by (simp add: stringparse_def drop_Suc nth_append list_update_append)

lemma stringparse_value:
  assumes "words \<noteq> []" and "\<forall>w\<in>set words. w \<noteq> []"
  shows "stringparse words = Inr (butlast (tl (join words)))"
proof (cases words)
  case Nil
  with assms(1) show ?thesis by simp
next
  case (Cons w rest)
  show ?thesis
  proof (cases rest rule: rev_cases)
    case Nil
    with Cons show ?thesis by (simp add: stringparse_single)
  next
    case (snoc mid l)
    from assms(2) Cons snoc have w: "w \<noteq> []" and l: "l \<noteq> []" by auto
    have "butlast (tl (join words)) = butlast (tl (join (w # mid)) @ '' '' @ l)"
      using Cons snoc w join_snoc [of "w # mid" l] by (cases mid) simp_all
    also have "\<dots> = tl (join (w # mid)) @ '' '' @ butlast l"
      using l by (simp add: butlast_append)
    also have "\<dots> = join (tl w # mid) @ '' '' @ butlast l"
      using join_tl_first [OF w, of mid] by simp
    also have "\<dots> = join ((tl w # mid) @ [butlast l])"
      by (rule join_snoc [symmetric]) simp
    finally show ?thesis
      using Cons snoc stringparse_several [of w mid l] by simp
  qed
qed

lemma read_line_quoted:
  assumes "split (rstrip raw) = paramname # words" and "words \<noteq> []"
    and "startswith (words ! 0) CHR 0x22 \<or> startswith (words ! 0) CHR 0x27"
    and "\<not> startswith (rstrip raw) CHR ''#''"
  shows "read_line fp raw cfg out =
     (out, Inr (cfg(paramname \<mapsto> PStr (butlast (tl (join words))))))"
proof -
  from assms(1) have ne: "rstrip raw \<noteq> []" using split_Nil by auto
  from assms(1) have "\<forall>w\<in>set words. w \<noteq> []"
    using split_nonempty [of _ "rstrip raw"] by auto
  with assms(2) have sp: "stringparse words = Inr (butlast (tl (join words)))"
    by (rule stringparse_value)
  from assms(3) have nb: "\<not> startswith (words ! 0) CHR ''[''"
    by (cases "words ! 0") auto
  show ?thesis using ne assms sp nb by (simp add: read_line_def)
qed

lemma rstrip_blank: "rstrip ''\<newline>'' = []" by code_simp
lemma rstrip_comment: "rstrip ''# settings\<newline>'' = ''# settings''" by code_simp
lemma rstrip_name_3_4: "rstrip ''name 3 4\<newline>'' = ''name 3 4''" by code_simp
lemma split_name_3_4: "split ''name 3 4'' = [''name'', ''3'', ''4'']" by code_simp
lemma rstrip_verbose: "rstrip ''verbose\<newline>'' = ''verbose''" by code_simp
lemma split_verbose: "split ''verbose'' = [''verbose'']" by code_simp

lemma split_quoted:
  "split (rstrip ''name 'multiple words here'\<newline>'') =
     [''name'', CHR 0x27 # ''multiple'', ''words'', ''here'' @ [CHR 0x27]]"
  by code_simp
lemma comment_quoted: "\<not> startswith (rstrip ''name 'multiple words here'\<newline>'') CHR ''#''"
  by code_simp
lemma split_mismatch:
  "split (rstrip ''title \"two words'\<newline>'') = [''title'', CHR 0x22 # ''two'', ''words'' @ [CHR 0x27]]"
  by code_simp
lemma comment_mismatch: "\<not> startswith (rstrip ''title \"two words'\<newline>'') CHR ''#''"
  by code_simp

lemma read_config_skipped:
  "read_config fp [''# settings\<newline>'', ''\<newline>''] = ([], Inr Map.empty)"
  by (simp add: read_config_def read_line_def rstrip_blank rstrip_comment)

lemma split_a_1_2: "split (rstrip ''a 1 2\<newline>'') = [''a'', ''1'', ''2'']" by code_simp
lemma rstrip_a_1_2: "rstrip ''a 1 2\<newline>'' = ''a 1 2''" by code_simp
lemma split_x_inf: "split ''x inf'' = [''x'', ''inf'']" by code_simp
lemma rstrip_x_inf: "rstrip ''x inf\<newline>'' = ''x inf''" by code_simp

lemma read_line_a_1_2:
  "read_line ''run.cfg'' ''a 1 2\<newline>'' cfg out =
     (out @ [''ERROR while parsing run.cfg -- too many values in line 'a 1 2'.''], Inl SystemExit)"
  using read_line_too_many [OF split_a_1_2, of "''run.cfg''" cfg out]
  by (simp add: rstrip_a_1_2 error_msg_def)

lemma read_line_x_inf:
  "read_line ''run.cfg'' ''x inf\<newline>'' cfg out = (out, Inl OverflowError)"
  using numberparse_infinite [OF float_of_str_inf]
  by (simp add: read_line_def split_x_inf rstrip_x_inf Let_def)

text \<open>
  Claim C8. A line that is not empty, is not a comment and holds a parameter name with no
  value does not end the load: the loop body prints the warning, stores \<^verbatim>\<open>None\<close> under
  the name and the loop goes on with the lines that follow.
\<close>

theorem missing_value_is_none:
  assumes "split (rstrip raw) = [paramname]" and "\<not> startswith (rstrip raw) CHR ''#''"
  shows "read_line filepath raw cfg out =
           (out @ [warning_msg paramname], Inr (cfg(paramname \<mapsto> PNone))) \<and>
         read_lines filepath (raw # lines) cfg out =
           read_lines filepath lines (cfg(paramname \<mapsto> PNone)) (out @ [warning_msg paramname])"
  using read_line_no_value [OF assms] by simp

theorem missing_value_is_none_witness:
  "read_config ''run.cfg'' [''verbose\<newline>''] =
     ([''WARNING: no value specified for parameter verbose.''], Inr [''verbose'' \<mapsto> PNone])"
proof -
  have "split (rstrip ''verbose\<newline>'') = [''verbose'']"
    by (simp add: rstrip_verbose split_verbose)
  moreover have "\<not> startswith (rstrip ''verbose\<newline>'') CHR ''#''"
    by (simp add: rstrip_verbose)
  ultimately show ?thesis
    using missing_value_is_none [of "''verbose\<newline>''" "''verbose''" "''run.cfg''" Map.empty "[]" "[]"]
    by (simp add: read_config_def warning_msg_def)
qed

text \<open>
  Claim C5. A line whose value has more than one token, the first of which starts neither
  with a bracket nor with a quote, ends the load as a whole: no file that holds such a line
  yields a configuration. Whenever the loop reaches such a line, whatever the dictionary
  and the output so far and whatever follows, it prints the error that names the file and
  the line and raises \<^verbatim>\<open>SystemExit\<close>; so the line reported is the first such line, and
  it is reported when the lines before it were read without an exception.
\<close>

theorem too_many_values_abort_load:
  assumes "split (rstrip raw) = paramname # words" and "1 < length words"
    and "\<not> startswith (words ! 0) CHR ''[''"
    and "\<not> startswith (words ! 0) CHR 0x22" and "\<not> startswith (words ! 0) CHR 0x27"
    and "\<not> startswith (rstrip raw) CHR ''#''"
  shows "read_line filepath raw cfg out =
           (out @ [error_msg filepath (rstrip raw)], Inl SystemExit) \<and>
         read_config filepath (pre @ raw # rest) =
           (case read_config filepath pre of
              (out', Inl err) \<Rightarrow> (out', Inl err)
            | (out', Inr cfg') \<Rightarrow> (out' @ [error_msg filepath (rstrip raw)], Inl SystemExit)) \<and>
         (raw \<in> set lines \<longrightarrow> (\<exists>out' err. read_config filepath lines = (out', Inl err)))"
proof -
  have step: "read_line filepath raw c o' = (o' @ [error_msg filepath (rstrip raw)], Inl SystemExit)"
    for c o'
    using assms by (rule read_line_too_many)
  have "read_config filepath (pre @ raw # rest) =
      (case read_config filepath pre of
         (out', Inl err) \<Rightarrow> (out', Inl err)
       | (out', Inr cfg') \<Rightarrow> (out' @ [error_msg filepath (rstrip raw)], Inl SystemExit))"
    unfolding read_config_def read_lines_append [of filepath pre "raw # rest"]
    by (simp add: step split: prod.splits sum.splits)
  moreover have "raw \<in> set lines \<longrightarrow> (\<exists>out' err. read_config filepath lines = (out', Inl err))"
    unfolding read_config_def
    using read_lines_member_error [of filepath raw lines Map.empty "[]"] step by blast
  ultimately show ?thesis using step by blast
qed

theorem too_many_values_abort_load_witness:
  "read_config ''run.cfg'' [''# settings\<newline>'', ''\<newline>'', ''name 3 4\<newline>'', ''verbose\<newline>''] =
     ([''ERROR while parsing run.cfg -- too many values in line 'name 3 4'.''], Inl SystemExit)"
  using too_many_values_abort_load [of "''name 3 4\<newline>''" "''name''" "[''3'', ''4'']"
      "''run.cfg''" Map.empty "[]" "[''# settings\<newline>'', ''\<newline>'']" "[''verbose\<newline>'']" "[]"]
  by (simp add: rstrip_name_3_4 split_name_3_4 read_config_skipped error_msg_def)

text \<open>
  The report is not made for every such line of a file: the loop stops at the first line
  that raises, so a second line with too many values is never reported, and neither is one
  that follows a line whose number is infinite.
\<close>

theorem too_many_values_counterexample:
  "read_config ''run.cfg'' [''a 1 2\<newline>'', ''b 3 4\<newline>''] =
     ([''ERROR while parsing run.cfg -- too many values in line 'a 1 2'.''], Inl SystemExit) \<and>
   read_config ''run.cfg'' [''x inf\<newline>'', ''name 3 4\<newline>''] = ([], Inl OverflowError)"
  by (simp add: read_config_def read_line_a_1_2 read_line_x_inf)

text \<open>
  Claim C6. On a line whose first value token starts with a single or double quote, the
  value is the tokens joined by single spaces without the first character of the first
  token and without the last character of the last token (of a token of one character
  both slices leave the empty string), whatever these two characters are. The line
  \<^verbatim>\<open>name 'multiple words here'\<close> gives the string \<^verbatim>\<open>multiple words here\<close>.
\<close>

theorem quoted_string_value:
  assumes "split (rstrip raw) = paramname # words" and "words \<noteq> []"
    and "startswith (words ! 0) CHR 0x22 \<or> startswith (words ! 0) CHR 0x27"
    and "\<not> startswith (rstrip raw) CHR ''#''"
  shows "stringparse words = Inr (butlast (tl (join words))) \<and>
         read_line filepath raw cfg out =
           (out, Inr (cfg(paramname \<mapsto> PStr (butlast (tl (join words)))))) \<and>
         (\<forall>w. words = [w] \<longrightarrow> stringparse words = Inr (butlast (tl w))) \<and>
         (\<forall>w mid l. words = w # mid @ [l] \<longrightarrow>
            stringparse words = Inr (join (tl w # mid @ [butlast l])))"
proof -
  from assms(1) have "\<forall>w\<in>set words. w \<noteq> []"
    using split_nonempty [of _ "rstrip raw"] by auto
  with assms(2) have "stringparse words = Inr (butlast (tl (join words)))"
    by (rule stringparse_value)
  moreover have "read_line filepath raw cfg out =
      (out, Inr (cfg(paramname \<mapsto> PStr (butlast (tl (join words))))))"
    using assms by (rule read_line_quoted)
  ultimately show ?thesis
    using stringparse_single stringparse_several by blast
qed

theorem quoted_string_value_witness:
  "read_config ''run.cfg'' [''name 'multiple words here'\<newline>''] =
     ([], Inr [''name'' \<mapsto> PStr ''multiple words here'']) \<and>
   read_config ''run.cfg'' [''title \"two words'\<newline>''] =
     ([], Inr [''title'' \<mapsto> PStr ''two words''])"
proof -
  have "read_line ''run.cfg'' ''name 'multiple words here'\<newline>'' Map.empty [] =
      ([], Inr [''name'' \<mapsto>
         PStr (butlast (tl (join [CHR 0x27 # ''multiple'', ''words'', ''here'' @ [CHR 0x27]])))])"
    using quoted_string_value [OF split_quoted _ _ comment_quoted, of "''run.cfg''" Map.empty "[]"]
    by simp
  moreover have "read_line ''run.cfg'' ''title \"two words'\<newline>'' Map.empty [] =
      ([], Inr [''title'' \<mapsto> PStr (butlast (tl (join [CHR 0x22 # ''two'', ''words'' @ [CHR 0x27]])))])"
    using quoted_string_value [OF split_mismatch _ _ comment_mismatch, of "''run.cfg''" Map.empty "[]"]
    by simp
  ultimately show ?thesis by (simp add: read_config_def)
qed

section \<open>Properties of \<^verbatim>\<open>get\<close> and \<^verbatim>\<open>set\<close>\<close>

lemma lookup_all_error: "lookup_all params names = Inl e \<Longrightarrow> e = KeyError"
  by (induction names arbitrary: e) (auto split: option.splits sum.splits)

lemma lookup_all_KeyError:
  "lookup_all params names = Inl KeyError \<longleftrightarrow> (\<exists>n\<in>set names. params n = None)"
  by (induction names) (auto split: option.splits sum.splits dest: lookup_all_error)

lemma lookup_all_values:
  "\<forall>n\<in>set names. params n \<noteq> None \<Longrightarrow>
   lookup_all params names = Inr (map (\<lambda>n. the (params n)) names)"
  by (induction names) (auto split: option.splits sum.splits)

text \<open>
  Claim C7. \<^verbatim>\<open>get\<close> raises \<^verbatim>\<open>KeyError\<close> exactly when one of the requested names is
  not in the configuration, and raises nothing else; otherwise it returns the stored value
  itself for one name and the tuple of the stored values, in the order of the request, for
  any other number of names (a pair for two names).
\<close>

theorem get_returns:
  "(get params names = Inl KeyError \<longleftrightarrow> (\<exists>n\<in>set names. params n = None)) \<and>
   (\<forall>e. get params names = Inl e \<longrightarrow> e = KeyError) \<and>
   ((\<forall>n\<in>set names. params n \<noteq> None) \<longrightarrow>
      get params names =
        (if length names = 1 then Inr (the (params (names ! 0)))
         else Inr (PTuple (map (\<lambda>n. the (params n)) names)))) \<and>
   (params a = Some va \<and> params b = Some vb \<longrightarrow> get params [a, b] = Inr (PTuple [va, vb]))"
proof (intro conjI allI impI)
  show "get params names = Inl KeyError \<longleftrightarrow> (\<exists>n\<in>set names. params n = None)"
    using lookup_all_KeyError [of params names]
    by (auto simp: get_def split: sum.splits if_splits)
next
  fix e assume "get params names = Inl e"
  then show "e = KeyError"
    by (auto simp: get_def split: sum.splits if_splits dest: lookup_all_error)
next
  assume "\<forall>n\<in>set names. params n \<noteq> None"
  then show "get params names =
        (if length names = 1 then Inr (the (params (names ! 0)))
         else Inr (PTuple (map (\<lambda>n. the (params n)) names)))"
    by (simp add: get_def lookup_all_values nth_map)
next
  assume "params a = Some va \<and> params b = Some vb"
  then show "get params [a, b] = Inr (PTuple [va, vb])"
    by (simp add: get_def)
qed

theorem get_returns_witness:
  "get [''a'' \<mapsto> PInt 1, ''b'' \<mapsto> PStr ''x''] [''b'', ''a''] = Inr (PTuple [PStr ''x'', PInt 1]) \<and>
   get [''a'' \<mapsto> PInt 1, ''b'' \<mapsto> PStr ''x''] [''b'', ''c''] = Inl KeyError"
proof -
  let ?cfg = "[''a'' \<mapsto> PInt 1, ''b'' \<mapsto> PStr ''x'']"
  have present: "\<forall>n\<in>set [''b'', ''a'']. ?cfg n \<noteq> None" by simp
  have absent: "\<exists>n\<in>set [''b'', ''c'']. ?cfg n = None" by simp
  from present get_returns [of ?cfg "[''b'', ''a'']"]
  have "get ?cfg [''b'', ''a''] =
      (if length [''b'', ''a''] = 1 then Inr (the (?cfg ([''b'', ''a''] ! 0)))
       else Inr (PTuple (map (\<lambda>n. the (?cfg n)) [''b'', ''a''])))"
    by blast
  then have two: "get ?cfg [''b'', ''a''] = Inr (PTuple [PStr ''x'', PInt 1])" by simp
  from absent get_returns [of ?cfg "[''b'', ''c'']"]
  have "get ?cfg [''b'', ''c''] = Inl KeyError" by blast
  with two show ?thesis by (intro conjI)
qed

text \<open>
  Claim C9. After \<^verbatim>\<open>set\<close> has stored a value under a name, \<^verbatim>\<open>get\<close> of that name
  returns exactly that value; both work on the dictionary in memory only.
\<close>

theorem set_then_get: "get (set_param params name v) [name] = Inr v"
  by (simp add: get_def set_param_def)

end
